theory Spec2Isabelle
  imports Main "HOL-Library.Word" "HOL-Library.Multiset"
begin

section \<open>Data model (internal/storage/persistence.go)\<close>

text \<open>
  A \<^verbatim>\<open>time.Time\<close> is an instant: the number of nanoseconds since Go's zero time.
  \<^verbatim>\<open>Before\<close>, \<^verbatim>\<open>After\<close> and \<^verbatim>\<open>Equal\<close> compare instants, \<^verbatim>\<open>Add\<close> adds a duration,
  and \<^verbatim>\<open>Truncate d\<close> rounds down to a multiple of \<open>d\<close> counted from the zero time
  (also for instants before it, which is what \<open>mod\<close> on \<open>int\<close> does).
  The range of \<^verbatim>\<open>time.Time\<close> (hundreds of billions of years) is not modelled.

  A Go \<^verbatim>\<open>int\<close> is a 64-bit two's complement word: arithmetic wraps around and
  comparisons read the word through \<open>sint\<close>.

  A Go \<^verbatim>\<open>string\<close> holding valid UTF-8 is the list of its code points.
  \<^verbatim>\<open>len(s)\<close> counts the bytes of the encoding and \<^verbatim>\<open>[]rune(s)\<close> is the list itself.
\<close>

type_synonym time = int
type_synonym duration = int
type_synonym goint = "64 word"
type_synonym rune = nat
type_synonym gostring = "rune list"

definition Hour24 :: duration where
  "Hour24 = 24 * 3600 * 1000000000"

definition Truncate :: "time \<Rightarrow> duration \<Rightarrow> time" where
  "Truncate t d = (if d \<le> 0 then t else t - t mod d)"

definition Add :: "time \<Rightarrow> duration \<Rightarrow> time" where
  "Add t d = t + d"

definition Before :: "time \<Rightarrow> time \<Rightarrow> bool" where
  "Before t u = (t < u)"

definition After :: "time \<Rightarrow> time \<Rightarrow> bool" where
  "After t u = (u < t)"

record Task =
  ID :: string
  Text :: gostring
  Done :: bool
  Date :: time
  IsCalendar :: bool
  StartTime :: time
  Priority :: goint
  CreatedAt :: time
  Level :: goint

subsection \<open>Strings\<close>

definition utf8_width :: "rune \<Rightarrow> nat" where
  "utf8_width r = (if r < 128 then 1 else if r < 2048 then 2 else if r < 65536 then 3 else 4)"

definition len :: "gostring \<Rightarrow> int" where
  "len s = int (sum_list (map utf8_width s))"

text \<open>
  \<^verbatim>\<open>strings.ToLower\<close> maps every code point through the Unicode lower-case table.
  The table is the parameter \<open>lower\<close>; \<open>asciiLower\<close> is its restriction to ASCII text.
\<close>

definition ToLower :: "(rune \<Rightarrow> rune) \<Rightarrow> gostring \<Rightarrow> gostring" where
  "ToLower lower s = map lower s"

definition asciiLower :: "rune \<Rightarrow> rune" where
  "asciiLower r = (if 65 \<le> r \<and> r \<le> 90 then r + 32 else r)"

definition str :: "string \<Rightarrow> gostring" where
  "str s = map of_char s"

fun HasPrefix :: "gostring \<Rightarrow> gostring \<Rightarrow> bool" where
  "HasPrefix s [] = True"
| "HasPrefix [] (p # ps) = False"
| "HasPrefix (c # s) (p # ps) = (c = p \<and> HasPrefix s ps)"

fun Contains :: "gostring \<Rightarrow> gostring \<Rightarrow> bool" where
  "Contains [] substr = (substr = [])"
| "Contains (c # s) substr = (HasPrefix (c # s) substr \<or> Contains s substr)"

section \<open>Sorting (sort.Slice)\<close>

text \<open>
  \<^verbatim>\<open>sort.Slice\<close> is Go's library sort by a \<^verbatim>\<open>less\<close> function. It is not stable, and
  which algorithm it runs depends on the length of the slice (insertion sort up to 12
  elements, a pattern-defeating quicksort beyond). The model does not fix it: every
  function that calls \<^verbatim>\<open>sort.Slice\<close> takes it as its first parameter \<open>sortSlice\<close>, and
  the theorems assume of it only what the library promises for a \<^verbatim>\<open>less\<close> that is a
  strict weak order, \<open>sortSliceContract\<close>: the result is a permutation of the input in
  which no element is less than an element before it. So the theorems hold for
  whatever order the sort returns among elements that \<^verbatim>\<open>less\<close> does not distinguish.
\<close>

type_synonym 'a sorter = "('a \<Rightarrow> 'a \<Rightarrow> bool) \<Rightarrow> 'a list \<Rightarrow> 'a list"

definition sortSliceContract :: "'a sorter \<Rightarrow> ('a \<Rightarrow> 'a \<Rightarrow> bool) \<Rightarrow> bool" where
  "sortSliceContract sortSlice lessf =
     (\<forall>xs. mset (sortSlice lessf xs) = mset xs
           \<and> sorted_wrt (\<lambda>a b. \<not> lessf b a) (sortSlice lessf xs))"

text \<open>
  The insertion sort that Go (from 1.19, the version the repository asks for) runs on
  slices of at most 12 elements: \<^verbatim>\<open>for i := a + 1; i < b; i++ { for j := i; j > a &&
  less(data[j], data[j-1]); j-- { swap(j, j-1) } }\<close>. The sorted prefix is held last
  element first, and \<open>insertionStep\<close> is the inner loop: \<open>x\<close> passes every element it
  is less than. It is the sort of the examples, all of which stay below that length.
\<close>

fun insertionStep :: "('a \<Rightarrow> 'a \<Rightarrow> bool) \<Rightarrow> 'a \<Rightarrow> 'a list \<Rightarrow> 'a list" where
  "insertionStep lessf x [] = [x]"
| "insertionStep lessf x (y # ys) =
     (if lessf x y then y # insertionStep lessf x ys else x # y # ys)"

definition insertionSortLessFunc :: "'a sorter" where
  "insertionSortLessFunc lessf xs = rev (fold (insertionStep lessf) xs [])"

section \<open>Fuzzy search (internal/search/fuzzy.go)\<close>

record Result =
  Task :: Task
  Score :: int
  Match :: gostring

definition abs_int :: "int \<Rightarrow> int" where
  "abs_int x = (if x < 0 then - x else x)"

definition max_int :: "int \<Rightarrow> int \<Rightarrow> int" where
  "max_int a b = (if a > b then a else b)"

text \<open>
  One iteration of the loop over \<^verbatim>\<open>textChars\<close> in \<^verbatim>\<open>calculateScore\<close>; the loop state is
  \<open>(score, queryIdx)\<close>. The score is an unbounded integer: it is at most 30 per
  character of the text, so it cannot leave the 64-bit range.
\<close>

definition fuzzyStep :: "rune list \<Rightarrow> rune list \<Rightarrow> nat \<Rightarrow> int \<times> nat \<Rightarrow> int \<times> nat" where
  "fuzzyStep queryChars textChars i st =
     (case st of (score, queryIdx) \<Rightarrow>
        if queryIdx < length queryChars \<and> textChars ! i = queryChars ! queryIdx then
          (score + 10
             + (if queryIdx > 0 \<and> i > 0 \<and> textChars ! (i - 1) = queryChars ! (queryIdx - 1)
                then 5 else 0)
             + (if i = 0 \<or> textChars ! (i - 1) = 32 then 15 else 0),
           queryIdx + 1)
        else (score, queryIdx))"

definition fuzzyLoop :: "rune list \<Rightarrow> rune list \<Rightarrow> int \<times> nat" where
  "fuzzyLoop queryChars textChars =
     fold (fuzzyStep queryChars textChars) [0..<length textChars] (0, 0)"

definition calculateScore :: "(rune \<Rightarrow> rune) \<Rightarrow> gostring \<Rightarrow> gostring \<Rightarrow> int" where
  "calculateScore lower query text0 =
     (let text = ToLower lower text0 in
      if Contains text query then
        (if text = query then 1000 else 500 + (100 - len text))
      else
        (case fuzzyLoop query text of (score, queryIdx) \<Rightarrow>
           if queryIdx < length query then 0
           else max_int 0 (score - abs_int (int (length text) - int (length query)))))"

definition highlightMatch :: "gostring \<Rightarrow> gostring \<Rightarrow> gostring" where
  "highlightMatch query text = text"

definition searchLess :: "Result \<Rightarrow> Result \<Rightarrow> bool" where
  "searchLess a b =
     (if Score a = Score b then After (Date (Task a)) (Date (Task b))
      else Score a > Score b)"

text \<open>
  The body of the loop over \<^verbatim>\<open>tasks\<close> in \<^verbatim>\<open>Search\<close>: \<open>results\<close> is the slice built so far,
  \<open>query\<close> is already lower-cased and \<open>today\<close> is the truncated clock reading.
\<close>

definition searchStep :: "(rune \<Rightarrow> rune) \<Rightarrow> gostring \<Rightarrow> time \<Rightarrow> Task \<Rightarrow> Result list \<Rightarrow> Result list" where
  "searchStep lower query today task results =
     (let score = calculateScore lower query (Text task) in
      if score > 0 then
        results @ [\<lparr>Task = task,
                     Score = (if \<not> Done task \<and> \<not> Before (Date task) today then score + 100 else score),
                     Match = highlightMatch query (Text task)\<rparr>]
      else results)"

text \<open>\<open>now\<close> is the reading of \<^verbatim>\<open>time.Now()\<close> inside \<^verbatim>\<open>Search\<close>.\<close>

definition Search ::
  "Result sorter \<Rightarrow> (rune \<Rightarrow> rune) \<Rightarrow> time \<Rightarrow> gostring \<Rightarrow> Task list \<Rightarrow> Result list" where
  "Search sortSlice lower now query0 ts =
     (if query0 = [] then []
      else
        let query = ToLower lower query0;
            today = Truncate now Hour24
        in sortSlice searchLess (fold (searchStep lower query today) ts []))"

section \<open>Application model (package app)\<close>

text \<open>
  The functions of package \<^verbatim>\<open>app\<close> modelled here stand, in the source tree at hand, in
  the file \<^verbatim>\<open>internal/search/fuzzy_bench_test.go\<close> from line 576 on.

  A \<^verbatim>\<open>ListItem\<close> of the day list. Its fields \<^verbatim>\<open>Date\<close> and \<^verbatim>\<open>Task\<close> are \<open>ItemDate\<close> and
  \<open>ItemTask\<close> here; \<open>ItemTask\<close> is a pointer in the source and \<open>None\<close> is \<^verbatim>\<open>nil\<close>.
\<close>

record ListItem =
  ItemType :: string
  ItemDate :: time
  ItemTask :: "Task option"
  IsSelected :: bool

text \<open>
  The fields of \<^verbatim>\<open>Model\<close> that the task operations read or write: \<open>appData_Tasks\<close> is
  \<^verbatim>\<open>m.appData.Tasks\<close>, the stored collection; \<open>tasks\<close> and \<open>calendarTasks\<close> are the cached
  view of the current date.
\<close>

record Model =
  appData_Tasks :: "Task list"
  tasks :: "Task list"
  calendarTasks :: "Task list"
  currentDate :: time

text \<open>The comparison closure handed to \<^verbatim>\<open>sort.Slice\<close> by both day compositors.\<close>

definition dayLess :: "Task \<Rightarrow> Task \<Rightarrow> bool" where
  "dayLess a b =
     (if IsCalendar a \<noteq> IsCalendar b then IsCalendar a
      else if IsCalendar a \<and> IsCalendar b then Before (StartTime a) (StartTime b)
      else sint (Priority a) > sint (Priority b))"

definition getTasksForDate :: "Task sorter \<Rightarrow> Model \<Rightarrow> time \<Rightarrow> Task list" where
  "getTasksForDate sortSlice m date =
     (let targetDate = Truncate date Hour24 in
      sortSlice dayLess
        (filter (\<lambda>task. Truncate (Date task) Hour24 = targetDate) (appData_Tasks m)))"

text \<open>
  \<open>FetchEvents\<close> is the outcome of \<^verbatim>\<open>m.calendarManager.FetchEvents\<close>, a network fetch:
  \<open>Some\<close> of the calendar tasks of the date, or \<open>None\<close> for an error (the manager
  logs a failed fetch and goes on, so that it returns no error as it stands).
\<close>

definition updateTasksForCurrentDate ::
  "Task sorter \<Rightarrow> (time \<Rightarrow> Task list option) \<Rightarrow> Model \<Rightarrow> Model" where
  "updateTasksForCurrentDate sortSlice FetchEvents m =
     (let m1 = (case FetchEvents (currentDate m) of
                  Some cts \<Rightarrow> m\<lparr>tasks := cts, calendarTasks := cts\<rparr>
                | None \<Rightarrow> m\<lparr>tasks := []\<rparr>);
          m2 = m1\<lparr>tasks := tasks m1 @
                  filter (\<lambda>task. Truncate (Date task) Hour24 = currentDate m1) (appData_Tasks m1)\<rparr>
      in m2\<lparr>tasks := sortSlice dayLess (tasks m2)\<rparr>)"

subsection \<open>Hierarchical insertion\<close>

definition addButtonStep :: "Task \<Rightarrow> goint \<Rightarrow> goint" where
  "addButtonStep task minPriority =
     (if \<not> IsCalendar task \<and> sint (Priority task) < sint minPriority
      then Priority task else minPriority)"

definition subtaskStep :: "Task \<Rightarrow> Task \<Rightarrow> goint \<Rightarrow> goint" where
  "subtaskStep selectedTask task endPriority =
     (if \<not> IsCalendar task \<and> sint (Priority task) < sint (Priority selectedTask)
         \<and> sint (Level task) > sint (Level selectedTask)
      then (if sint (Priority task) < sint endPriority then Priority task else endPriority)
      else endPriority)"

definition appendTask :: "Model \<Rightarrow> Task \<Rightarrow> Model" where
  "appendTask m task = m\<lparr>appData_Tasks := appData_Tasks m @ [task]\<rparr>"

text \<open>\<open>selectedItem\<close> is what \<^verbatim>\<open>m.getSelectedListItem()\<close> returns (\<open>None\<close> is \<^verbatim>\<open>nil\<close>).\<close>

definition insertTaskAtPosition ::
  "Task sorter \<Rightarrow> Model \<Rightarrow> ListItem option \<Rightarrow> Task \<Rightarrow> time \<Rightarrow> Model" where
  "insertTaskAtPosition sortSlice m selectedItem newTask targetDate =
     (let dayTasks = getTasksForDate sortSlice m targetDate in
      case selectedItem of
        None \<Rightarrow> appendTask m (newTask\<lparr>Priority := 1\<rparr>)
      | Some item \<Rightarrow>
          if dayTasks = [] then appendTask m (newTask\<lparr>Priority := 1\<rparr>)
          else if ItemType item = ''add_button'' then
            appendTask m (newTask\<lparr>Priority := fold addButtonStep dayTasks 0 - 1\<rparr>)
          else
            (case (if ItemType item = ''task'' then ItemTask item else None) of
               Some selectedTask \<Rightarrow>
                 appendTask m (newTask\<lparr>Priority :=
                   fold (subtaskStep selectedTask) dayTasks (Priority selectedTask - 1) - 1\<rparr>)
             | None \<Rightarrow> appendTask m (newTask\<lparr>Priority := 1\<rparr>)))"

subsection \<open>Moving tasks\<close>

text \<open>
  The search loops \<^verbatim>\<open>for i, task := range ... { if task.ID == taskID { ...; break } }\<close>:
  the index of the first task with the id, \<open>None\<close> when the loop ends without a hit
  (\<^verbatim>\<open>localIndex == -1\<close>).
\<close>

fun findIndexByID :: "Task list \<Rightarrow> string \<Rightarrow> nat option" where
  "findIndexByID [] taskID = None"
| "findIndexByID (task # rest) taskID =
     (if ID task = taskID then Some 0 else map_option Suc (findIndexByID rest taskID))"

definition moveTaskWithinDay ::
  "Task sorter \<Rightarrow> (time \<Rightarrow> Task list option) \<Rightarrow> Model \<Rightarrow> string \<Rightarrow> time \<Rightarrow> nat \<Rightarrow> nat
     \<Rightarrow> Model" where
  "moveTaskWithinDay sortSlice FetchEvents m taskID date fromIndex toIndex =
     updateTasksForCurrentDate sortSlice FetchEvents
       (case findIndexByID (appData_Tasks m) taskID of
          None \<Rightarrow> m
        | Some i \<Rightarrow>
            let t = appData_Tasks m ! i in
            m\<lparr>appData_Tasks := (appData_Tasks m)
                 [i := (if toIndex < fromIndex then t\<lparr>Priority := Priority t + 1\<rparr>
                        else t\<lparr>Priority := Priority t - 1\<rparr>)]\<rparr>)"

definition minPriorityStep :: "time \<Rightarrow> Task \<Rightarrow> goint \<Rightarrow> goint" where
  "minPriorityStep toDate task minPriority =
     (if Truncate (Date task) Hour24 = Truncate toDate Hour24 \<and> \<not> IsCalendar task
      then (if sint (Priority task) < sint minPriority then Priority task else minPriority)
      else minPriority)"

definition maxPriorityStep :: "time \<Rightarrow> Task \<Rightarrow> goint \<Rightarrow> goint" where
  "maxPriorityStep toDate task maxPriority =
     (if Truncate (Date task) Hour24 = Truncate toDate Hour24 \<and> \<not> IsCalendar task
      then (if sint (Priority task) > sint maxPriority then Priority task else maxPriority)
      else maxPriority)"

text \<open>
  The date is assigned before the scan for the lowest or highest priority, and the scan
  runs over the whole collection, the moved task with its new date included.
\<close>

definition moveTaskToDay ::
  "Task sorter \<Rightarrow> (time \<Rightarrow> Task list option) \<Rightarrow> Model \<Rightarrow> string \<Rightarrow> time \<Rightarrow> time \<Rightarrow> int
     \<Rightarrow> Model" where
  "moveTaskToDay sortSlice FetchEvents m taskID fromDate toDate position =
     updateTasksForCurrentDate sortSlice FetchEvents
       (case findIndexByID (appData_Tasks m) taskID of
          None \<Rightarrow> m
        | Some i \<Rightarrow>
            let ts1 = (appData_Tasks m)[i := (appData_Tasks m ! i)\<lparr>Date := toDate\<rparr>] in
            if position = - 1 then
              m\<lparr>appData_Tasks :=
                   ts1[i := (ts1 ! i)\<lparr>Priority := fold (minPriorityStep toDate) ts1 0 - 1\<rparr>]\<rparr>
            else
              m\<lparr>appData_Tasks :=
                   ts1[i := (ts1 ! i)\<lparr>Priority := fold (maxPriorityStep toDate) ts1 0 + 1\<rparr>]\<rparr>)"

definition moveTaskUp ::
  "Task sorter \<Rightarrow> (time \<Rightarrow> Task list option) \<Rightarrow> Model \<Rightarrow> time \<Rightarrow> string \<Rightarrow> Model" where
  "moveTaskUp sortSlice FetchEvents m date taskID =
     (let dayTasks = getTasksForDate sortSlice m date in
      case findIndexByID dayTasks taskID of
        None \<Rightarrow> m
      | Some localIndex \<Rightarrow>
          if IsCalendar (dayTasks ! localIndex) then m
          else if localIndex > 0 then
            moveTaskWithinDay sortSlice FetchEvents m taskID date localIndex (localIndex - 1)
          else
            let prevDate = Add date (- Hour24) in
            if \<not> Before prevDate (currentDate m)
            then moveTaskToDay sortSlice FetchEvents m taskID date prevDate (- 1)
            else m)"

definition moveTaskDown ::
  "Task sorter \<Rightarrow> (time \<Rightarrow> Task list option) \<Rightarrow> Model \<Rightarrow> time \<Rightarrow> string \<Rightarrow> Model" where
  "moveTaskDown sortSlice FetchEvents m date taskID =
     (let dayTasks = getTasksForDate sortSlice m date in
      case findIndexByID dayTasks taskID of
        None \<Rightarrow> m
      | Some localIndex \<Rightarrow>
          if IsCalendar (dayTasks ! localIndex) then m
          else if int localIndex < int (length dayTasks) - 1 then
            moveTaskWithinDay sortSlice FetchEvents m taskID date localIndex (localIndex + 1)
          else
            let nextDate = Add date Hour24 in
            moveTaskToDay sortSlice FetchEvents m taskID date nextDate 0)"

text \<open>
  The task state that \<^verbatim>\<open>NewModel\<close> builds: \<open>loaded\<close> is the collection read from
  storage and \<open>now\<close> the reading of \<^verbatim>\<open>time.Now()\<close>.
\<close>

definition NewModel ::
  "Task sorter \<Rightarrow> (time \<Rightarrow> Task list option) \<Rightarrow> Task list \<Rightarrow> time \<Rightarrow> Model" where
  "NewModel sortSlice FetchEvents loaded now =
     updateTasksForCurrentDate sortSlice FetchEvents
       \<lparr>appData_Tasks = loaded, tasks = [], calendarTasks = [],
        currentDate = Truncate now Hour24\<rparr>"

text \<open>
  The key \<^verbatim>\<open>p\<close> of \<^verbatim>\<open>handleViewMode\<close> ("previous day"): it moves \<^verbatim>\<open>m.currentDate\<close> one
  day back. \<^verbatim>\<open>NewModel\<close> starts \<^verbatim>\<open>m.currentDate\<close> at \<^verbatim>\<open>time.Now().Truncate(24h)\<close>.
\<close>

definition viewPreviousDay ::
  "Task sorter \<Rightarrow> (time \<Rightarrow> Task list option) \<Rightarrow> Model \<Rightarrow> Model" where
  "viewPreviousDay sortSlice FetchEvents m =
     updateTasksForCurrentDate sortSlice FetchEvents
       (m\<lparr>currentDate := Add (currentDate m) (- Hour24)\<rparr>)"

section \<open>The specification's wording, for comparison with the code\<close>

text \<open>
  The subsequence walk as the specification words it: the bonus of 5 is for a match
  at the position right after the position of the previous match. The loop state is
  \<open>(score, queryIdx, lastMatch)\<close>, with \<open>lastMatch\<close> the position of the previous match.
\<close>

definition spec_fuzzyStep ::
  "rune list \<Rightarrow> rune list \<Rightarrow> nat \<Rightarrow> int \<times> nat \<times> nat option \<Rightarrow> int \<times> nat \<times> nat option" where
  "spec_fuzzyStep queryChars textChars i st =
     (case st of (score, queryIdx, lastMatch) \<Rightarrow>
        if queryIdx < length queryChars \<and> textChars ! i = queryChars ! queryIdx then
          (score + 10
             + (if i > 0 \<and> lastMatch = Some (i - 1) then 5 else 0)
             + (if i = 0 \<or> textChars ! (i - 1) = 32 then 15 else 0),
           queryIdx + 1, Some i)
        else (score, queryIdx, lastMatch))"

definition spec_subsequenceScore :: "gostring \<Rightarrow> gostring \<Rightarrow> int" where
  "spec_subsequenceScore query text =
     (case fold (spec_fuzzyStep query text) [0..<length text] (0, 0, None) of
        (score, queryIdx, lastMatch) \<Rightarrow>
          if queryIdx < length query then 0
          else max 0 (score - \<bar>int (length text) - int (length query)\<bar>))"

text \<open>
  The descendant block of \<open>T\<close> in a day's sequence as the specification words it: the
  contiguous run of tasks right after \<open>T\<close> whose level is strictly greater than that of
  \<open>T\<close>; and \<open>endPriority\<close>, the minimum priority among \<open>T\<close> and that block.
\<close>

definition spec_descendantBlock :: "Task \<Rightarrow> Task list \<Rightarrow> Task list" where
  "spec_descendantBlock T dayTasks =
     takeWhile (\<lambda>task. sint (Level task) > sint (Level T))
       (drop 1 (dropWhile (\<lambda>task. ID task \<noteq> ID T) dayTasks))"

definition spec_endPriority :: "Task \<Rightarrow> Task list \<Rightarrow> goint" where
  "spec_endPriority T dayTasks =
     fold (\<lambda>task e. if sint (Priority task) < sint e then Priority task else e)
       (spec_descendantBlock T dayTasks) (Priority T)"

text \<open>
  The maximum priority among the non-calendar tasks of a day as the specification
  words it; \<open>None\<close> when the day has no such task.
\<close>

definition spec_maxPriority :: "Task list \<Rightarrow> time \<Rightarrow> goint option" where
  "spec_maxPriority ts day =
     (case filter (\<lambda>task. Truncate (Date task) Hour24 = Truncate day Hour24 \<and> \<not> IsCalendar task) ts of
        [] \<Rightarrow> None
      | t # rest \<Rightarrow>
          Some (fold (\<lambda>task mx. if sint (Priority task) > sint mx then Priority task else mx)
                  rest (Priority t)))"

text \<open>
  The display order of a day as the specification words it: calendar events first,
  ascending by start time, then the other tasks, descending by priority.
\<close>

definition spec_dayOrdered :: "Task list \<Rightarrow> bool" where
  "spec_dayOrdered out =
     (out = filter IsCalendar out @ filter (\<lambda>t. \<not> IsCalendar t) out
      \<and> sorted_wrt (\<lambda>a b. StartTime a \<le> StartTime b) (filter IsCalendar out)
      \<and> sorted_wrt (\<lambda>a b. sint (Priority a) \<ge> sint (Priority b))
            (filter (\<lambda>t. \<not> IsCalendar t) out))"

section \<open>Example data\<close>

definition mkTask :: "string \<Rightarrow> string \<Rightarrow> time \<Rightarrow> goint \<Rightarrow> goint \<Rightarrow> Task" where
  "mkTask i txt d p l =
     \<lparr>ID = i, Text = str txt, Done = False, Date = d, IsCalendar = False, StartTime = 0,
      Priority = p, CreatedAt = 0, Level = l\<rparr>"

definition noEvents :: "time \<Rightarrow> Task list option" where
  "noEvents d = Some []"

definition day :: "int \<Rightarrow> time" where
  "day n = n * Hour24"

definition mkModel :: "Task list \<Rightarrow> time \<Rightarrow> Model" where
  "mkModel ts d = \<lparr>appData_Tasks = ts, tasks = [], calendarTasks = [], currentDate = d\<rparr>"

definition exA :: Task where
  "exA = mkTask ''A'' ''task A'' (day 3) 10 0"

definition exB :: Task where
  "exB = mkTask ''B'' ''task B'' (day 3) 9 1"

definition exC :: Task where
  "exC = mkTask ''C'' ''task C'' (day 3) 8 0"

definition exNew :: Task where
  "exNew = mkTask ''N'' ''new task'' (day 3) 0 0"

definition exLow :: Task where
  "exLow = mkTask ''a'' ''low'' (day 3) (- 1) 0"

definition exNext :: Task where
  "exNext = mkTask ''b'' ''next'' (day 4) (- 3) 0"

definition exToday :: Task where
  "exToday = mkTask ''A'' ''task A'' (day 5) 1 0"

definition exT1 :: Task where
  "exT1 = (mkTask ''task1'' ''test completed task'' (day 4) 0 0)\<lparr>Done := True\<rparr>"

definition exT2 :: Task where
  "exT2 = mkTask ''task2'' ''test active task'' (day 5) 0 0"

definition exT3 :: Task where
  "exT3 = mkTask ''task3'' ''test old task'' (day 4) 0 0"

definition exHigh :: Task where
  "exHigh = mkTask ''H'' ''next high'' (day 4) 12 0"

definition exMid :: Task where
  "exMid = mkTask ''M'' ''next mid'' (day 4) 4 0"

definition exCal :: Task where
  "exCal = (mkTask ''cal'' ''meeting'' (day 3) (- 1) 0)\<lparr>IsCalendar := True, StartTime := day 3 + 9\<rparr>"

section \<open>Properties of the fuzzy search\<close>

lemma HasPrefix_iff: "HasPrefix s p \<longleftrightarrow> (\<exists>v. s = p @ v)"
  by (induction s p rule: HasPrefix.induct) auto

lemma Contains_iff: "Contains s sub \<longleftrightarrow> (\<exists>u v. s = u @ sub @ v)"
proof (induction s)
  case Nil
  then show ?case by simp
next
  case (Cons c s)
  show ?case
  proof
    assume "Contains (c # s) sub"
    then consider "HasPrefix (c # s) sub" | "Contains s sub" by auto
    then show "\<exists>u v. c # s = u @ sub @ v"
    proof cases
      case 1
      then obtain v where "c # s = sub @ v" by (auto simp: HasPrefix_iff)
      then have "c # s = [] @ sub @ v" by simp
      then show ?thesis by blast
    next
      case 2
      then obtain u v where "s = u @ sub @ v" using Cons.IH by auto
      then have "c # s = (c # u) @ sub @ v" by simp
      then show ?thesis by blast
    qed
  next
    assume "\<exists>u v. c # s = u @ sub @ v"
    then obtain u v where uv: "c # s = u @ sub @ v" by auto
    show "Contains (c # s) sub"
    proof (cases u)
      case Nil
      with uv have "HasPrefix (c # s) sub" by (auto simp: HasPrefix_iff)
      then show ?thesis by simp
    next
      case (Cons a u')
      with uv have "s = u' @ sub @ v" by simp
      then have "Contains s sub" using Cons.IH by blast
      then show ?thesis by simp
    qed
  qed
qed

text \<open>
  Claim C6. Whenever the lower-cased text contains the query handed to
  \<^verbatim>\<open>calculateScore\<close> (which \<^verbatim>\<open>Search\<close> has lower-cased) as a contiguous substring, the
  score is exactly 1000 if the lower-cased text equals the query and exactly
  \<open>500 + (100 - len text)\<close> otherwise, \<open>len\<close> being Go's byte length of the lower-cased
  text; no length-difference penalty enters.
\<close>

theorem calculateScore_substring:
  assumes "\<exists>u v. ToLower lower text = u @ query @ v"
  shows "calculateScore lower query text =
           (if ToLower lower text = query then 1000
            else 500 + (100 - len (ToLower lower text)))"
  using assms by (simp add: calculateScore_def Let_def Contains_iff)

theorem calculateScore_substring_witness:
  "(\<exists>u v. ToLower asciiLower (str ''this is a TEST'') = u @ str ''test'' @ v)
   \<and> calculateScore asciiLower (str ''test'') (str ''this is a TEST'') = 586
   \<and> calculateScore asciiLower (str ''test'') (str ''TEST'') = 1000"
proof -
  have "ToLower asciiLower (str ''this is a TEST'') = str ''this is a '' @ str ''test'' @ []"
    by (simp add: ToLower_def asciiLower_def str_def)
  then have h1: "\<exists>u v. ToLower asciiLower (str ''this is a TEST'') = u @ str ''test'' @ v"
    by blast
  have "ToLower asciiLower (str ''TEST'') = [] @ str ''test'' @ []"
    by (simp add: ToLower_def asciiLower_def str_def)
  then have h2: "\<exists>u v. ToLower asciiLower (str ''TEST'') = u @ str ''test'' @ v"
    by blast
  show ?thesis
    using h1 calculateScore_substring [OF h1] calculateScore_substring [OF h2]
    by (simp add: ToLower_def asciiLower_def str_def len_def utf8_width_def)
qed

text \<open>
  Claim C5, at the text \<^verbatim>\<open>axabxc\<close> and the query \<^verbatim>\<open>abc\<close>, which is not a substring of
  the text. The \<^verbatim>\<open>b\<close> at position 3 follows the \<^verbatim>\<open>a\<close> at position 2, but the query's
  \<^verbatim>\<open>a\<close> was matched at position 0: the match is not consecutive with the previous
  matched position. \<^verbatim>\<open>calculateScore\<close> compares the preceding text character with the
  preceding query character, grants the bonus of 5 and returns 47; the walk of the
  specification returns 42.
\<close>

theorem calculateScore_consecutive_bonus_misplaced:
  "\<not> Contains (ToLower asciiLower (str ''axabxc'')) (str ''abc'')
   \<and> calculateScore asciiLower (str ''abc'') (str ''axabxc'') = 47
   \<and> spec_subsequenceScore (str ''abc'') (ToLower asciiLower (str ''axabxc'')) = 42"
  by (simp add: calculateScore_def ToLower_def asciiLower_def str_def fuzzyLoop_def
      fuzzyStep_def max_int_def abs_int_def spec_subsequenceScore_def spec_fuzzyStep_def)

text \<open>
  Claim C7, at the query of three spaces and a collection holding one task with the
  text \<^verbatim>\<open>a   b\<close>: \<^verbatim>\<open>Search\<close> compares the query with the empty string without trimming
  it, scores the task 595 (and adds the bonus of 100) and returns it.
\<close>

theorem Search_whitespace_query_returns_task:
  "Search insertionSortLessFunc asciiLower (day 5) (str ''   '') [mkTask ''t1'' ''a   b'' (day 5) 0 0]
     = [\<lparr>Task = mkTask ''t1'' ''a   b'' (day 5) 0 0, Score = 695, Match = str ''a   b''\<rparr>]"
  by (simp add: Search_def calculateScore_def ToLower_def asciiLower_def str_def mkTask_def
      searchStep_def insertionSortLessFunc_def len_def utf8_width_def highlightMatch_def Before_def
      Truncate_def Hour24_def day_def)

lemma fold_searchStep:
  "fold (searchStep lower query today) ts acc =
     acc @ map (\<lambda>t. \<lparr>Task = t,
                      Score = calculateScore lower query (Text t)
                              + (if \<not> Done t \<and> today \<le> Date t then 100 else 0),
                      Match = Text t\<rparr>)
             (filter (\<lambda>t. 0 < calculateScore lower query (Text t)) ts)"
  by (induction ts arbitrary: acc)
     (auto simp: searchStep_def Let_def Before_def highlightMatch_def)

section \<open>Properties of sorting\<close>

lemma mset_insertionStep: "mset (insertionStep lessf x ys) = add_mset x (mset ys)"
  by (induction ys) auto

lemma mset_fold_insertionStep:
  "mset (fold (insertionStep lessf) xs acc) = mset xs + mset acc"
  by (induction xs arbitrary: acc) (auto simp: mset_insertionStep)

lemma set_insertionStep: "set (insertionStep lessf x ys) = insert x (set ys)"
  using mset_insertionStep [of lessf x ys] by (metis set_mset_add_mset_insert set_mset_mset)

text \<open>
  What \<^verbatim>\<open>sort.Slice\<close> asks of its \<^verbatim>\<open>less\<close>: it is asymmetric and incomparability is
  transitive. Then no element of the result is less than an element before it.
\<close>

lemma sorted_insertionStep:
  assumes asym: "\<And>a b. lessf a b \<Longrightarrow> \<not> lessf b a"
    and ntrans: "\<And>a b c. \<not> lessf b a \<Longrightarrow> \<not> lessf c b \<Longrightarrow> \<not> lessf c a"
    and srt: "sorted_wrt (\<lambda>a b. \<not> lessf a b) ys"
  shows "sorted_wrt (\<lambda>a b. \<not> lessf a b) (insertionStep lessf x ys)"
  using srt
proof (induction ys)
  case Nil
  then show ?case by simp
next
  case (Cons y ys)
  show ?case
  proof (cases "lessf x y")
    case True
    then have "\<not> lessf y x" by (rule asym)
    with Cons True show ?thesis by (auto simp: set_insertionStep)
  next
    case False
    have "\<not> lessf x z" if "z \<in> set ys" for z
    proof -
      from Cons.prems that have "\<not> lessf y z" by simp
      then show ?thesis using False by (rule ntrans)
    qed
    with False Cons.prems show ?thesis by simp
  qed
qed

lemma sorted_fold_insertionStep:
  assumes asym: "\<And>a b. lessf a b \<Longrightarrow> \<not> lessf b a"
    and ntrans: "\<And>a b c. \<not> lessf b a \<Longrightarrow> \<not> lessf c b \<Longrightarrow> \<not> lessf c a"
  shows "sorted_wrt (\<lambda>a b. \<not> lessf a b) acc \<Longrightarrow>
         sorted_wrt (\<lambda>a b. \<not> lessf a b) (fold (insertionStep lessf) xs acc)"
proof (induction xs arbitrary: acc)
  case Nil
  then show ?case by simp
next
  case (Cons x xs)
  have "sorted_wrt (\<lambda>a b. \<not> lessf a b) (insertionStep lessf x acc)"
    using asym ntrans Cons.prems by (rule sorted_insertionStep)
  then show ?case using Cons.IH by simp
qed

lemma insertionSort_contract:
  assumes "\<And>a b. lessf a b \<Longrightarrow> \<not> lessf b a"
    and "\<And>a b c. \<not> lessf b a \<Longrightarrow> \<not> lessf c b \<Longrightarrow> \<not> lessf c a"
  shows "sortSliceContract insertionSortLessFunc lessf"
proof -
  have "sorted_wrt (\<lambda>a b. \<not> lessf a b) (fold (insertionStep lessf) xs [])" for xs
  proof (rule sorted_fold_insertionStep)
    show "\<And>a b. lessf a b \<Longrightarrow> \<not> lessf b a" by (rule assms(1))
    show "\<And>a b c. \<not> lessf b a \<Longrightarrow> \<not> lessf c b \<Longrightarrow> \<not> lessf c a" by (rule assms(2))
    show "sorted_wrt (\<lambda>a b. \<not> lessf a b) []" by simp
  qed
  then show ?thesis
    by (simp add: sortSliceContract_def insertionSortLessFunc_def sorted_wrt_rev
        mset_fold_insertionStep)
qed

text \<open>What the theorems use of a sort that keeps the contract.\<close>

lemma mset_sortSlice:
  "sortSliceContract sortSlice lessf \<Longrightarrow> mset (sortSlice lessf xs) = mset xs"
  by (simp add: sortSliceContract_def)

lemma set_sortSlice:
  "sortSliceContract sortSlice lessf \<Longrightarrow> set (sortSlice lessf xs) = set xs"
  using mset_sortSlice [of sortSlice lessf xs] by (metis set_mset_mset)

lemma sorted_sortSlice:
  "sortSliceContract sortSlice lessf \<Longrightarrow>
     sorted_wrt (\<lambda>a b. \<not> lessf b a) (sortSlice lessf xs)"
  by (simp add: sortSliceContract_def)

lemma dayLess_asym: "dayLess a b \<Longrightarrow> \<not> dayLess b a"
  by (auto simp: dayLess_def Before_def split: if_splits)

lemma dayLess_ntrans: "\<not> dayLess b a \<Longrightarrow> \<not> dayLess c b \<Longrightarrow> \<not> dayLess c a"
  by (auto simp: dayLess_def Before_def split: if_splits)

lemma searchLess_asym: "searchLess a b \<Longrightarrow> \<not> searchLess b a"
  by (auto simp: searchLess_def After_def split: if_splits)

lemma searchLess_ntrans: "\<not> searchLess b a \<Longrightarrow> \<not> searchLess c b \<Longrightarrow> \<not> searchLess c a"
  by (auto simp: searchLess_def After_def split: if_splits)

text \<open>
  Both comparison closures are strict weak orders, so the contract applies to them, and
  the insertion sort keeps it.
\<close>

lemma insertionSort_dayLess: "sortSliceContract insertionSortLessFunc dayLess"
  by (rule insertionSort_contract) (erule dayLess_asym, erule (1) dayLess_ntrans)

lemma insertionSort_searchLess: "sortSliceContract insertionSortLessFunc searchLess"
  by (rule insertionSort_contract) (erule searchLess_asym, erule (1) searchLess_ntrans)

lemma sorted_wrt_partition:
  assumes "sorted_wrt R xs" and "\<And>a b. R a b \<Longrightarrow> P b \<Longrightarrow> P a"
  shows "filter P xs @ filter (\<lambda>x. \<not> P x) xs = xs"
  using assms(1)
proof (induction xs)
  case Nil
  then show ?case by simp
next
  case (Cons x xs)
  show ?case
  proof (cases "P x")
    case True
    with Cons show ?thesis by simp
  next
    case False
    have "\<not> P y" if "y \<in> set xs" for y
      using Cons.prems that False assms(2) by auto
    then have "filter P xs = []" "filter (\<lambda>x. \<not> P x) xs = xs"
      by (auto simp: filter_empty_conv filter_id_conv)
    with False show ?thesis by simp
  qed
qed

text \<open>
  Every sequence that \<^verbatim>\<open>dayLess\<close> leaves in order has the display order of the
  specification, whichever sorting algorithm produced it.
\<close>

lemma dayOrdered_of_sorted:
  assumes srt: "sorted_wrt (\<lambda>a b. \<not> dayLess b a) out"
  shows "spec_dayOrdered out"
proof -
  have part: "filter IsCalendar out @ filter (\<lambda>t. \<not> IsCalendar t) out = out"
    using srt by (rule sorted_wrt_partition) (auto simp: dayLess_def split: if_splits)
  have "sorted_wrt (\<lambda>a b. \<not> dayLess b a) (filter IsCalendar out)"
    using srt by (rule sorted_wrt_filter)
  then have cal: "sorted_wrt (\<lambda>a b. StartTime a \<le> StartTime b) (filter IsCalendar out)"
    by (rule sorted_wrt_mono_rel [rotated]) (auto simp: dayLess_def Before_def)
  have "sorted_wrt (\<lambda>a b. \<not> dayLess b a) (filter (\<lambda>t. \<not> IsCalendar t) out)"
    using srt by (rule sorted_wrt_filter)
  then have pri: "sorted_wrt (\<lambda>a b. sint (Priority a) \<ge> sint (Priority b))
                    (filter (\<lambda>t. \<not> IsCalendar t) out)"
    by (rule sorted_wrt_mono_rel [rotated]) (auto simp: dayLess_def)
  from part cal pri show ?thesis by (simp add: spec_dayOrdered_def)
qed

section \<open>Evaluation on the example data\<close>

lemma Hour24_pos: "0 < Hour24"
  by (simp add: Hour24_def)

lemma Truncate_Add_day: "Truncate (Add d Hour24) Hour24 = Truncate d Hour24 + Hour24"
  by (simp add: Truncate_def Add_def Hour24_def)

lemma Truncate_day: "Truncate (day n) Hour24 = day n"
  by (simp add: Truncate_def day_def Hour24_def)

lemma Truncate_day_plus: "0 \<le> r \<Longrightarrow> r < Hour24 \<Longrightarrow> Truncate (day n + r) Hour24 = day n"
  by (simp add: Truncate_def day_def Hour24_def)

lemma day_eq_iff: "day a = day b \<longleftrightarrow> a = b"
  by (simp add: day_def Hour24_def)

lemma day_less_iff: "day a < day b \<longleftrightarrow> a < b"
  by (simp add: day_def Hour24_def)

lemma day_le_iff: "day a \<le> day b \<longleftrightarrow> a \<le> b"
  by (simp add: day_def Hour24_def)

lemma Add_day: "Add (day n) Hour24 = day (n + 1)" "Add (day n) (- Hour24) = day (n - 1)"
  by (simp_all add: Add_def day_def algebra_simps)

lemmas ex_defs = mkTask_def mkModel_def noEvents_def

lemmas eval_defs = getTasksForDate_def insertionSortLessFunc_def dayLess_def Truncate_day day_eq_iff
  day_less_iff Add_day Before_def Let_def updateTasksForCurrentDate_def

section \<open>The bonus for active tasks\<close>

text \<open>
  Claim C8. Whatever order \<^verbatim>\<open>sort.Slice\<close> returns within its contract, for a non-empty
  query the results of \<^verbatim>\<open>Search\<close> are, up to their order,
  one result for every task whose base score is strictly positive, and no other. The
  score of the result is the base score plus 100 when the task is not done and its
  date is not before today (the clock reading truncated to 24 hours), and the base
  score alone when the task is done or dated before today. The bonus is part of the
  score by which the results are then sorted, highest first.
\<close>

theorem Search_active_bonus:
  assumes srt: "sortSliceContract sortSlice searchLess"
    and ne: "query \<noteq> []"
  shows "mset (Search sortSlice lower now query ts) =
           mset (map (\<lambda>t. \<lparr>Task = t,
                            Score = calculateScore lower (ToLower lower query) (Text t)
                                    + (if \<not> Done t \<and> Truncate now Hour24 \<le> Date t
                                       then 100 else 0),
                            Match = Text t\<rparr>)
                   (filter (\<lambda>t. 0 < calculateScore lower (ToLower lower query) (Text t)) ts))
       \<and> sorted_wrt (\<lambda>a b. Score b \<le> Score a) (Search sortSlice lower now query ts)"
proof -
  have 1: "mset (Search sortSlice lower now query ts) =
           mset (map (\<lambda>t. \<lparr>Task = t,
                            Score = calculateScore lower (ToLower lower query) (Text t)
                                    + (if \<not> Done t \<and> Truncate now Hour24 \<le> Date t
                                       then 100 else 0),
                            Match = Text t\<rparr>)
                   (filter (\<lambda>t. 0 < calculateScore lower (ToLower lower query) (Text t)) ts))"
    using ne by (simp add: Search_def Let_def mset_sortSlice [OF srt] fold_searchStep)
  obtain xs where xs: "Search sortSlice lower now query ts = sortSlice searchLess xs"
    using ne by (simp add: Search_def Let_def)
  have "sorted_wrt (\<lambda>a b. \<not> searchLess b a) (Search sortSlice lower now query ts)"
    unfolding xs using srt by (rule sorted_sortSlice)
  then have 2: "sorted_wrt (\<lambda>a b. Score b \<le> Score a) (Search sortSlice lower now query ts)"
    by (rule sorted_wrt_mono_rel [rotated]) (auto simp: searchLess_def split: if_splits)
  from 1 2 show ?thesis by simp
qed

theorem Search_active_bonus_witness:
  "sortSliceContract insertionSortLessFunc searchLess \<and> str ''test'' \<noteq> [] \<and>
   mset (Search insertionSortLessFunc asciiLower (day 5 + 1000) (str ''test'') [exT1, exT2, exT3]) =
     {# \<lparr>Task = exT1, Score = 581, Match = str ''test completed task''\<rparr>,
        \<lparr>Task = exT2, Score = 684, Match = str ''test active task''\<rparr>,
        \<lparr>Task = exT3, Score = 587, Match = str ''test old task''\<rparr> #}"
proof -
  have h: "str ''test'' \<noteq> []" by (simp add: str_def)
  have t: "Truncate (day 5 + 1000) Hour24 = day 5"
    by (rule Truncate_day_plus) (simp_all add: Hour24_def)
  have l: "ToLower asciiLower (str ''test'') = str ''test''"
    by (simp add: ToLower_def asciiLower_def str_def)
  have s1: "calculateScore asciiLower (str ''test'') (str ''test completed task'') = 581"
    by (simp add: calculateScore_def ToLower_def asciiLower_def str_def len_def utf8_width_def)
  have s2: "calculateScore asciiLower (str ''test'') (str ''test active task'') = 584"
    by (simp add: calculateScore_def ToLower_def asciiLower_def str_def len_def utf8_width_def)
  have s3: "calculateScore asciiLower (str ''test'') (str ''test old task'') = 587"
    by (simp add: calculateScore_def ToLower_def asciiLower_def str_def len_def utf8_width_def)
  have d: "Done exT1" "\<not> Done exT2" "\<not> Done exT3" "Date exT2 = day 5" "Date exT3 = day 4"
    "\<not> day 5 \<le> day 4" "Text exT1 = str ''test completed task''"
    "Text exT2 = str ''test active task''" "Text exT3 = str ''test old task''"
    by (simp_all add: exT1_def exT2_def exT3_def mkTask_def day_le_iff)
  show ?thesis
    using h insertionSort_searchLess
      Search_active_bonus [OF insertionSort_searchLess h, of asciiLower "day 5 + 1000"
        "[exT1, exT2, exT3]"]
    by (simp add: t l s1 s2 s3 d)
qed

section \<open>The order of a day\<close>

lemma set_getTasksForDate:
  "sortSliceContract sortSlice dayLess \<Longrightarrow>
   set (getTasksForDate sortSlice m date) =
     {t \<in> set (appData_Tasks m). Truncate (Date t) Hour24 = Truncate date Hour24}"
  by (auto simp: getTasksForDate_def Let_def set_sortSlice)

lemma mset_getTasksForDate:
  "sortSliceContract sortSlice dayLess \<Longrightarrow>
   mset (getTasksForDate sortSlice m date) =
     mset (filter (\<lambda>t. Truncate (Date t) Hour24 = Truncate date Hour24) (appData_Tasks m))"
  by (simp add: getTasksForDate_def Let_def mset_sortSlice)

text \<open>
  Claim C3. Whatever order \<^verbatim>\<open>sort.Slice\<close> returns within its contract, for every date
  and every stored collection the sequence that \<^verbatim>\<open>getTasksForDate\<close> returns holds
  exactly the stored tasks of that day, all calendar tasks first, ascending by start
  time, then all other tasks, descending by priority. The same holds of the view that
  \<^verbatim>\<open>updateTasksForCurrentDate\<close> builds from the fetched calendar events of the current
  date and the stored tasks of that date.
\<close>

theorem day_compositor_order:
  assumes srt: "sortSliceContract sortSlice dayLess"
  shows "spec_dayOrdered (getTasksForDate sortSlice m date)
   \<and> mset (getTasksForDate sortSlice m date) =
       mset (filter (\<lambda>t. Truncate (Date t) Hour24 = Truncate date Hour24) (appData_Tasks m))
   \<and> spec_dayOrdered (tasks (updateTasksForCurrentDate sortSlice FetchEvents m))
   \<and> mset (tasks (updateTasksForCurrentDate sortSlice FetchEvents m)) =
       mset (case FetchEvents (currentDate m) of Some cts \<Rightarrow> cts | None \<Rightarrow> [])
       + mset (filter (\<lambda>t. Truncate (Date t) Hour24 = currentDate m) (appData_Tasks m))"
proof -
  have ord: "spec_dayOrdered (sortSlice dayLess xs)" for xs
    using srt by (intro dayOrdered_of_sorted sorted_sortSlice)
  have 1: "spec_dayOrdered (getTasksForDate sortSlice m date)"
    unfolding getTasksForDate_def Let_def by (rule ord)
  have "\<exists>xs. tasks (updateTasksForCurrentDate sortSlice FetchEvents m) = sortSlice dayLess xs"
    by (auto simp: updateTasksForCurrentDate_def Let_def split: option.splits)
  then have 3: "spec_dayOrdered (tasks (updateTasksForCurrentDate sortSlice FetchEvents m))"
    using ord by auto
  have 4: "mset (tasks (updateTasksForCurrentDate sortSlice FetchEvents m)) =
       mset (case FetchEvents (currentDate m) of Some cts \<Rightarrow> cts | None \<Rightarrow> [])
       + mset (filter (\<lambda>t. Truncate (Date t) Hour24 = currentDate m) (appData_Tasks m))"
    by (simp add: updateTasksForCurrentDate_def Let_def mset_sortSlice [OF srt]
        split: option.splits)
  from 1 mset_getTasksForDate [OF srt] 3 4 show ?thesis by simp
qed

theorem day_compositor_order_witness:
  "sortSliceContract insertionSortLessFunc dayLess
   \<and> getTasksForDate insertionSortLessFunc (mkModel [exB, exCal, exA] (day 3)) (day 3)
       = [exCal, exA, exB]
   \<and> tasks (updateTasksForCurrentDate insertionSortLessFunc (\<lambda>d. Some [exCal])
              (mkModel [exB, exA] (day 3)))
       = [exCal, exA, exB]
   \<and> spec_dayOrdered [exCal, exA, exB]"
proof -
  let ?m = "mkModel [exB, exCal, exA] (day 3)"
  let ?m2 = "mkModel [exB, exA] (day 3)"
  have g: "getTasksForDate insertionSortLessFunc ?m (day 3) = [exCal, exA, exB]"
    by (simp add: exA_def exB_def exCal_def ex_defs eval_defs)
  have u: "tasks (updateTasksForCurrentDate insertionSortLessFunc (\<lambda>d. Some [exCal]) ?m2)
             = [exCal, exA, exB]"
    by (simp add: exA_def exB_def exCal_def ex_defs eval_defs)
  from day_compositor_order [OF insertionSort_dayLess, of ?m "day 3" "\<lambda>d. Some [exCal]"]
  have "spec_dayOrdered (getTasksForDate insertionSortLessFunc ?m (day 3))" by simp
  then show ?thesis using g u insertionSort_dayLess by simp
qed

section \<open>Moving a task\<close>

lemma findIndexByID_None: "findIndexByID xs s = None \<longleftrightarrow> s \<notin> ID ` set xs"
  by (induction xs) auto

lemma findIndexByID_Some:
  "findIndexByID xs s = Some i \<Longrightarrow> i < length xs \<and> ID (xs ! i) = s"
  by (induction xs arbitrary: i) (auto split: if_splits)

lemma distinct_ID_eq:
  assumes "distinct (map ID xs)" "a \<in> set xs" "b \<in> set xs" "ID a = ID b"
  shows "a = b"
  using assms by (meson distinct_map inj_onD)

lemma findIndexByID_distinct:
  assumes "distinct (map ID xs)" "t \<in> set xs" "findIndexByID xs (ID t) = Some i"
  shows "i < length xs \<and> xs ! i = t"
proof -
  from findIndexByID_Some [OF assms(3)] have i: "i < length xs" "ID (xs ! i) = ID t" by auto
  then have "xs ! i \<in> set xs" by simp
  then have "xs ! i = t" using assms(2) i(2) by (rule distinct_ID_eq [OF assms(1)])
  with i show ?thesis by simp
qed

lemma findIndexByID_exists:
  "t \<in> set xs \<Longrightarrow> \<exists>i. findIndexByID xs (ID t) = Some i"
  using findIndexByID_None [of xs "ID t"] by (cases "findIndexByID xs (ID t)") auto

lemma distinct_getTasksForDate:
  assumes "sortSliceContract sortSlice dayLess" "distinct (map ID (appData_Tasks m))"
  shows "distinct (map ID (getTasksForDate sortSlice m date))"
proof -
  let ?f = "filter (\<lambda>t. Truncate (Date t) Hour24 = Truncate date Hour24) (appData_Tasks m)"
  have "distinct (map ID ?f)" using assms(2) by (rule distinct_map_filter)
  moreover have "mset (map ID (getTasksForDate sortSlice m date)) = mset (map ID ?f)"
    by (simp add: mset_getTasksForDate [OF assms(1)])
  ultimately show ?thesis by (metis mset_eq_imp_distinct_iff)
qed

lemma appData_updateTasksForCurrentDate [simp]:
  "appData_Tasks (updateTasksForCurrentDate sortSlice F m) = appData_Tasks m"
  by (simp add: updateTasksForCurrentDate_def Let_def split: option.splits)

lemma list_update_distinct_map:
  assumes "distinct xs" "i < length xs"
  shows "xs[i := y] = map (\<lambda>u. if u = xs ! i then y else u) xs"
proof (rule nth_equalityI)
  show "length (xs[i := y]) = length (map (\<lambda>u. if u = xs ! i then y else u) xs)" by simp
  fix j assume "j < length (xs[i := y])"
  then have j: "j < length xs" by simp
  with assms have "xs ! j = xs ! i \<longleftrightarrow> j = i" by (simp add: nth_eq_iff_index_eq)
  with j assms(2) show "xs[i := y] ! j = map (\<lambda>u. if u = xs ! i then y else u) xs ! j"
    by (auto simp: nth_list_update)
qed

text \<open>
  Claim C10. Whatever order \<^verbatim>\<open>sort.Slice\<close> returns within its contract, when no stored
  task of the day of \<open>d\<close> has the id \<open>s\<close>, \<^verbatim>\<open>moveTaskUp\<close> and
  \<^verbatim>\<open>moveTaskDown\<close> return the model as it was: the collection, the cached view and the
  current date are unchanged, and there is no error value to return.
\<close>

theorem move_unknown_id_noop:
  assumes srt: "sortSliceContract sortSlice dayLess"
    and none: "\<forall>t \<in> set (appData_Tasks m).
                 Truncate (Date t) Hour24 = Truncate d Hour24 \<longrightarrow> ID t \<noteq> s"
  shows "moveTaskUp sortSlice FetchEvents m d s = m \<and> moveTaskDown sortSlice FetchEvents m d s = m"
proof -
  have "s \<notin> ID ` set (getTasksForDate sortSlice m d)"
    using none by (auto simp: set_getTasksForDate [OF srt])
  then have "findIndexByID (getTasksForDate sortSlice m d) s = None"
    by (simp add: findIndexByID_None)
  then show ?thesis by (simp add: moveTaskUp_def moveTaskDown_def)
qed

theorem move_unknown_id_noop_witness:
  "sortSliceContract insertionSortLessFunc dayLess \<and> ID exA \<noteq> ''Z'' \<and> ID exB \<noteq> ''Z''
   \<and> moveTaskUp insertionSortLessFunc noEvents (mkModel [exA, exB] (day 3)) (day 3) ''Z'' = mkModel [exA, exB] (day 3)
   \<and> moveTaskDown insertionSortLessFunc noEvents (mkModel [exA, exB] (day 3)) (day 3) ''Z'' = mkModel [exA, exB] (day 3)"
proof -
  have h: "\<forall>t \<in> set (appData_Tasks (mkModel [exA, exB] (day 3))).
             Truncate (Date t) Hour24 = Truncate (day 3) Hour24 \<longrightarrow> ID t \<noteq> ''Z''"
    by (simp add: exA_def exB_def ex_defs)
  from move_unknown_id_noop [OF insertionSort_dayLess h, of noEvents] insertionSort_dayLess
  show ?thesis
    by (simp add: exA_def exB_def ex_defs)
qed

text \<open>
  Claim C9. Let \<^verbatim>\<open>sort.Slice\<close> return any order within its contract, let the ids of the
  stored collection be distinct (invariant U) and let \<open>t\<close> be a stored non-calendar task
  of the day of \<open>date\<close>, at position \<open>k\<close> of the sequence that the sort returns for that
  day. If \<open>k\<close> is not the first position, \<^verbatim>\<open>moveTaskUp\<close> leaves every stored
  task but \<open>t\<close> as it was and replaces \<open>t\<close> by \<open>t\<close> with its priority incremented by 1;
  if \<open>k\<close> is not the last position, \<^verbatim>\<open>moveTaskDown\<close> does the same with the priority
  decremented by 1. No other field of \<open>t\<close> changes. The priority is a Go \<^verbatim>\<open>int\<close>, so
  the step by 1 is the one of 64-bit arithmetic.
\<close>

theorem within_day_move_frame:
  assumes srt: "sortSliceContract sortSlice dayLess"
    and dist: "distinct (map ID (appData_Tasks m))"
    and mem: "t \<in> set (appData_Tasks m)"
    and dt: "Truncate (Date t) Hour24 = Truncate date Hour24"
    and nc: "\<not> IsCalendar t"
    and k: "findIndexByID (getTasksForDate sortSlice m date) (ID t) = Some k"
  shows "(0 < k \<longrightarrow>
            appData_Tasks (moveTaskUp sortSlice FetchEvents m date (ID t)) =
              map (\<lambda>u. if u = t then t\<lparr>Priority := Priority t + 1\<rparr> else u) (appData_Tasks m))
       \<and> (k + 1 < length (getTasksForDate sortSlice m date) \<longrightarrow>
            appData_Tasks (moveTaskDown sortSlice FetchEvents m date (ID t)) =
              map (\<lambda>u. if u = t then t\<lparr>Priority := Priority t - 1\<rparr> else u) (appData_Tasks m))"
proof -
  have tday: "t \<in> set (getTasksForDate sortSlice m date)"
    using mem dt by (simp add: set_getTasksForDate [OF srt])
  have kt: "getTasksForDate sortSlice m date ! k = t"
    using findIndexByID_distinct [OF distinct_getTasksForDate [OF srt dist] tday k] by simp
  obtain i where i: "findIndexByID (appData_Tasks m) (ID t) = Some i"
    using findIndexByID_exists [OF mem] by blast
  have it: "i < length (appData_Tasks m)" "appData_Tasks m ! i = t"
    using findIndexByID_distinct [OF dist mem i] by simp_all
  have dts: "distinct (appData_Tasks m)" using dist by (simp add: distinct_map)
  have upd: "(appData_Tasks m)[i := y] = map (\<lambda>u. if u = t then y else u) (appData_Tasks m)" for y
    using list_update_distinct_map [OF dts it(1), of y] it(2) by simp
  have up: "0 < k \<Longrightarrow> appData_Tasks (moveTaskUp sortSlice FetchEvents m date (ID t)) =
                (appData_Tasks m)[i := t\<lparr>Priority := Priority t + 1\<rparr>]"
    using k kt nc i it by (simp add: moveTaskUp_def moveTaskWithinDay_def Let_def)
  have down: "k + 1 < length (getTasksForDate sortSlice m date) \<Longrightarrow>
      appData_Tasks (moveTaskDown sortSlice FetchEvents m date (ID t)) =
                (appData_Tasks m)[i := t\<lparr>Priority := Priority t - 1\<rparr>]"
    using k kt nc i it by (simp add: moveTaskDown_def moveTaskWithinDay_def Let_def)
  from up down show ?thesis by (simp add: upd)
qed

theorem within_day_move_frame_witness:
  "sortSliceContract insertionSortLessFunc dayLess \<and> distinct (map ID [exA, exB, exC]) \<and> exB \<in> set [exA, exB, exC]
   \<and> \<not> IsCalendar exB
   \<and> findIndexByID (getTasksForDate insertionSortLessFunc (mkModel [exA, exB, exC] (day 3)) (day 3)) ''B'' = Some 1
   \<and> length (getTasksForDate insertionSortLessFunc (mkModel [exA, exB, exC] (day 3)) (day 3)) = 3
   \<and> appData_Tasks (moveTaskUp insertionSortLessFunc noEvents (mkModel [exA, exB, exC] (day 3)) (day 3) ''B'')
       = [exA, exB\<lparr>Priority := 10\<rparr>, exC]
   \<and> appData_Tasks (moveTaskDown insertionSortLessFunc noEvents (mkModel [exA, exB, exC] (day 3)) (day 3) ''B'')
       = [exA, exB\<lparr>Priority := 8\<rparr>, exC]"
proof -
  let ?m = "mkModel [exA, exB, exC] (day 3)"
  have g: "getTasksForDate insertionSortLessFunc ?m (day 3) = [exA, exB, exC]"
    by (simp add: exA_def exB_def exC_def ex_defs eval_defs)
  have ts: "appData_Tasks ?m = [exA, exB, exC]" by (simp add: mkModel_def)
  have h1: "distinct (map ID (appData_Tasks ?m))" by (simp add: ts) (simp add: exA_def exB_def exC_def ex_defs)
  have h2: "exB \<in> set (appData_Tasks ?m)" by (simp add: ts)
  have h3: "Truncate (Date exB) Hour24 = Truncate (day 3) Hour24"
    by (simp add: exA_def exB_def exC_def ex_defs Truncate_day)
  have h4: "\<not> IsCalendar exB" by (simp add: exA_def exB_def exC_def ex_defs)
  have h5: "findIndexByID (getTasksForDate insertionSortLessFunc ?m (day 3)) (ID exB) = Some 1"
    by (simp add: g) (simp add: exA_def exB_def exC_def ex_defs)
  have idb: "ID exB = ''B''" by (simp add: exA_def exB_def exC_def ex_defs)
  have ne: "exA \<noteq> exB" "exC \<noteq> exB" "Priority exB = 9" by (simp_all add: exA_def exB_def exC_def ex_defs)
  from within_day_move_frame [OF insertionSort_dayLess h1 h2 h3 h4 h5, of noEvents]
  show ?thesis
    using insertionSort_dayLess h1 h2 h4 h5 by (simp add: g ts idb ne)
qed

section \<open>Priorities found by scanning\<close>

text \<open>
  A scan that keeps the lowest priority among the tasks selected by \<open>P\<close>, starting
  from \<open>e0\<close>, and the scan that keeps the highest.
\<close>

lemma fold_min_bounds:
  assumes g: "\<And>t e. g t e = (if P t \<and> sint (Priority t) < sint e then Priority t else e)"
  shows "sint (fold g xs e0) \<le> sint e0
       \<and> (\<forall>t \<in> set xs. P t \<longrightarrow> sint (fold g xs e0) \<le> sint (Priority t))
       \<and> (fold g xs e0 = e0 \<or> (\<exists>t \<in> set xs. P t \<and> fold g xs e0 = Priority t))"
proof (induction xs arbitrary: e0)
  case Nil
  then show ?case by simp
next
  case (Cons x xs)
  let ?e = "g x e0"
  have e: "sint ?e \<le> sint e0" "P x \<Longrightarrow> sint ?e \<le> sint (Priority x)"
    "?e = e0 \<or> (P x \<and> ?e = Priority x)"
    by (auto simp: g)
  from Cons.IH [of ?e] have ih: "sint (fold g xs ?e) \<le> sint ?e"
    "\<forall>t \<in> set xs. P t \<longrightarrow> sint (fold g xs ?e) \<le> sint (Priority t)"
    "fold g xs ?e = ?e \<or> (\<exists>t \<in> set xs. P t \<and> fold g xs ?e = Priority t)"
    by auto
  have 1: "sint (fold g (x # xs) e0) \<le> sint e0" using e(1) ih(1) by simp
  have 2: "\<forall>t \<in> set (x # xs). P t \<longrightarrow> sint (fold g (x # xs) e0) \<le> sint (Priority t)"
    using e(2) ih(1,2) by auto
  have 3: "fold g (x # xs) e0 = e0
           \<or> (\<exists>t \<in> set (x # xs). P t \<and> fold g (x # xs) e0 = Priority t)"
    using e(3) ih(3) by auto
  from 1 2 3 show ?case by blast
qed

lemma fold_min_Min:
  assumes g: "\<And>t e. g t e = (if P t \<and> sint (Priority t) < sint e then Priority t else e)"
  shows "sint (fold g xs e0) =
           Min (insert (sint e0) ((\<lambda>t. sint (Priority t)) ` {t \<in> set xs. P t}))"
proof (rule Min_eqI [symmetric])
  note b = fold_min_bounds [where g = g and P = P and xs = xs and ?e0.0 = e0, OF g]
  show "finite (insert (sint e0) ((\<lambda>t. sint (Priority t)) ` {t \<in> set xs. P t}))" by simp
  show "sint (fold g xs e0) \<le> y"
    if "y \<in> insert (sint e0) ((\<lambda>t. sint (Priority t)) ` {t \<in> set xs. P t})" for y
    using that b by auto
  show "sint (fold g xs e0) \<in> insert (sint e0) ((\<lambda>t. sint (Priority t)) ` {t \<in> set xs. P t})"
    using b by auto
qed

lemma fold_max_bounds:
  assumes g: "\<And>t e. g t e = (if P t \<and> sint (Priority t) > sint e then Priority t else e)"
  shows "sint e0 \<le> sint (fold g xs e0)
       \<and> (\<forall>t \<in> set xs. P t \<longrightarrow> sint (Priority t) \<le> sint (fold g xs e0))
       \<and> (fold g xs e0 = e0 \<or> (\<exists>t \<in> set xs. P t \<and> fold g xs e0 = Priority t))"
proof (induction xs arbitrary: e0)
  case Nil
  then show ?case by simp
next
  case (Cons x xs)
  let ?e = "g x e0"
  have e: "sint e0 \<le> sint ?e" "P x \<Longrightarrow> sint (Priority x) \<le> sint ?e"
    "?e = e0 \<or> (P x \<and> ?e = Priority x)"
    by (auto simp: g)
  from Cons.IH [of ?e] have ih: "sint ?e \<le> sint (fold g xs ?e)"
    "\<forall>t \<in> set xs. P t \<longrightarrow> sint (Priority t) \<le> sint (fold g xs ?e)"
    "fold g xs ?e = ?e \<or> (\<exists>t \<in> set xs. P t \<and> fold g xs ?e = Priority t)"
    by auto
  have 1: "sint e0 \<le> sint (fold g (x # xs) e0)" using e(1) ih(1) by simp
  have 2: "\<forall>t \<in> set (x # xs). P t \<longrightarrow> sint (Priority t) \<le> sint (fold g (x # xs) e0)"
    using e(2) ih(1,2) by auto
  have 3: "fold g (x # xs) e0 = e0
           \<or> (\<exists>t \<in> set (x # xs). P t \<and> fold g (x # xs) e0 = Priority t)"
    using e(3) ih(3) by auto
  from 1 2 3 show ?case by blast
qed

lemma fold_max_Max:
  assumes g: "\<And>t e. g t e = (if P t \<and> sint (Priority t) > sint e then Priority t else e)"
  shows "sint (fold g xs e0) =
           Max (insert (sint e0) ((\<lambda>t. sint (Priority t)) ` {t \<in> set xs. P t}))"
proof (rule Max_eqI [symmetric])
  note b = fold_max_bounds [where g = g and P = P and xs = xs and ?e0.0 = e0, OF g]
  show "finite (insert (sint e0) ((\<lambda>t. sint (Priority t)) ` {t \<in> set xs. P t}))" by simp
  show "y \<le> sint (fold g xs e0)"
    if "y \<in> insert (sint e0) ((\<lambda>t. sint (Priority t)) ` {t \<in> set xs. P t})" for y
    using that b by auto
  show "sint (fold g xs e0) \<in> insert (sint e0) ((\<lambda>t. sint (Priority t)) ` {t \<in> set xs. P t})"
    using b by auto
qed

lemma sint_succ: "sint (p :: goint) < 2 ^ 63 - 1 \<Longrightarrow> sint (p + 1) = sint p + 1"
proof -
  assume a: "sint p < 2 ^ 63 - 1"
  have "- (2 ^ 63) \<le> sint p" using sint_ge [of p] by simp
  with a show ?thesis
    by (simp add: sint_word_ariths signed_take_bit_int_eq_self)
qed

lemma sint_pred: "- (2 ^ 63) < sint (p :: goint) \<Longrightarrow> sint (p - 1) = sint p - 1"
proof -
  assume a: "- (2 ^ 63) < sint p"
  have "sint p < 2 ^ 63" using sint_lt [of p] by simp
  with a show ?thesis
    by (simp add: sint_word_ariths signed_take_bit_int_eq_self)
qed

lemma word_of_sint: "word_of_int (sint (p :: goint)) = p"
  by simp

section \<open>Moving the last task of a day down\<close>

text \<open>
  Claim C4 as stated fails. The collection holds \<open>exLow\<close> (day 3, priority -1) and
  \<open>exNext\<close> (day 4, priority -3). The maximum priority among the non-calendar tasks of
  day 4 is -3, so the claim puts the moved task at priority -2; \<^verbatim>\<open>moveTaskDown\<close> starts
  its scan at 0 and gives priority 1.
\<close>

theorem moveTaskDown_priority_counterexample:
  "spec_maxPriority [exLow, exNext] (Add (day 3) Hour24) = Some (- 3)
   \<and> map Priority
        (appData_Tasks (moveTaskDown insertionSortLessFunc noEvents (mkModel [exLow, exNext] (day 3)) (day 3) ''a''))
       = [1, - 3]
   \<and> (1 :: goint) \<noteq> - 3 + 1"
  by (simp add: exLow_def exNext_def ex_defs eval_defs moveTaskDown_def moveTaskToDay_def maxPriorityStep_def
      spec_maxPriority_def)

text \<open>
  Claim C4, amended. Let \<^verbatim>\<open>sort.Slice\<close> return any order within its contract, let the
  ids of the stored collection be distinct and let \<open>t\<close> be a stored non-calendar task of
  the day of \<open>date\<close>, at the last position of the sequence that the sort returns for
  that day. For every \<open>date\<close>, \<^verbatim>\<open>moveTaskDown\<close> leaves every stored task but \<open>t\<close> as it
  was, sets the date of \<open>t\<close> to \<open>date\<close> plus 24 hours, which lies in the next day, and
  sets its priority to one more than the greatest of 0, the previous priority of \<open>t\<close>
  and the priorities of the stored non-calendar tasks of the next day. Unless that
  greatest value is the largest 64-bit integer, the new priority is strictly greater
  than the priority of every stored non-calendar task of the next day.
\<close>

theorem moveTaskDown_last_task:
  assumes srt: "sortSliceContract sortSlice dayLess"
    and dist: "distinct (map ID (appData_Tasks m))"
    and mem: "t \<in> set (appData_Tasks m)"
    and dt: "Truncate (Date t) Hour24 = Truncate date Hour24"
    and nc: "\<not> IsCalendar t"
    and k: "findIndexByID (getTasksForDate sortSlice m date) (ID t) = Some k"
    and lst: "k + 1 = length (getTasksForDate sortSlice m date)"
  shows "let S = insert 0 (insert (sint (Priority t))
                   ((\<lambda>u. sint (Priority u)) `
                      {u \<in> set (appData_Tasks m).
                         Truncate (Date u) Hour24 = Truncate date Hour24 + Hour24
                         \<and> \<not> IsCalendar u}))
         in appData_Tasks (moveTaskDown sortSlice FetchEvents m date (ID t)) =
              map (\<lambda>u. if u = t
                        then t\<lparr>Date := Add date Hour24, Priority := word_of_int (Max S) + 1\<rparr>
                        else u) (appData_Tasks m)
          \<and> Truncate (Add date Hour24) Hour24 = Truncate date Hour24 + Hour24
          \<and> (Max S < 2 ^ 63 - 1 \<longrightarrow>
               (\<forall>u \<in> set (appData_Tasks m).
                  Truncate (Date u) Hour24 = Truncate date Hour24 + Hour24 \<and> \<not> IsCalendar u
                    \<longrightarrow> sint (Priority u) < sint (word_of_int (Max S) + 1 :: goint)))"
proof -
  let ?ts = "appData_Tasks m"
  let ?nd = "Add date Hour24"
  let ?Pd = "\<lambda>u. Truncate (Date u) Hour24 = Truncate ?nd Hour24 \<and> \<not> IsCalendar u"
  let ?S = "insert 0 (insert (sint (Priority t))
              ((\<lambda>u. sint (Priority u)) ` {u \<in> set ?ts. ?Pd u}))"
  have tday: "t \<in> set (getTasksForDate sortSlice m date)"
    using mem dt by (simp add: set_getTasksForDate [OF srt])
  have kt: "getTasksForDate sortSlice m date ! k = t"
    using findIndexByID_distinct [OF distinct_getTasksForDate [OF srt dist] tday k] by simp
  obtain i where i: "findIndexByID ?ts (ID t) = Some i"
    using findIndexByID_exists [OF mem] by blast
  have it: "i < length ?ts" "?ts ! i = t"
    using findIndexByID_distinct [OF dist mem i] by simp_all
  have dts: "distinct ?ts" using dist by (simp add: distinct_map)
  have upd: "?ts[i := y] = map (\<lambda>u. if u = t then y else u) ?ts" for y
    using list_update_distinct_map [OF dts it(1), of y] it(2) by simp
  let ?t1 = "t\<lparr>Date := ?nd\<rparr>"
  let ?ts1 = "?ts[i := ?t1]"
  let ?P = "fold (maxPriorityStep ?nd) ?ts1 0"
  have res: "appData_Tasks (moveTaskDown sortSlice FetchEvents m date (ID t)) =
          ?ts[i := t\<lparr>Date := ?nd, Priority := ?P + 1\<rparr>]"
    using k kt nc i it lst by (simp add: moveTaskDown_def moveTaskToDay_def Let_def)
  have nd: "Truncate ?nd Hour24 = Truncate date Hour24 + Hour24"
    by (rule Truncate_Add_day)
  have "set ?ts1 = insert ?t1 (set ?ts - {t})"
    using dts it by (simp add: set_update_distinct)
  moreover have "\<not> ?Pd t" using dt nd Hour24_pos by simp
  moreover have "?Pd ?t1" using nc by simp
  ultimately have sel: "{u \<in> set ?ts1. ?Pd u} = insert ?t1 {u \<in> set ?ts. ?Pd u}"
    by auto
  have "sint ?P = Max (insert (sint (0 :: goint))
                    ((\<lambda>u. sint (Priority u)) ` {u \<in> set ?ts1. ?Pd u}))"
    by (rule fold_max_Max) (simp add: maxPriorityStep_def)
  then have mx: "sint ?P = Max ?S"
    by (simp add: sel)
  have P: "?P = word_of_int (Max ?S)"
    using word_of_sint [of ?P] unfolding mx by simp
  have bound: "sint (Priority u) \<le> Max ?S" if "u \<in> set ?ts" "?Pd u" for u
  proof -
    have "sint (Priority u) \<in> ?S" using that by blast
    then show ?thesis by (intro Max_ge) simp_all
  qed
  have above: "Max ?S < 2 ^ 63 - 1 \<longrightarrow>
           (\<forall>u \<in> set ?ts. ?Pd u
              \<longrightarrow> sint (Priority u) < sint (word_of_int (Max ?S) + 1 :: goint))"
  proof (intro impI ballI)
    fix u assume a: "Max ?S < 2 ^ 63 - 1" "u \<in> set ?ts" "?Pd u"
    have "sint (?P + 1) = sint ?P + 1" using a(1) mx by (simp add: sint_succ)
    then show "sint (Priority u) < sint (word_of_int (Max ?S) + 1 :: goint)"
      using bound [OF a(2,3)] mx P by simp
  qed
  have res2: "appData_Tasks (moveTaskDown sortSlice FetchEvents m date (ID t)) =
      map (\<lambda>u. if u = t then t\<lparr>Date := ?nd, Priority := word_of_int (Max ?S) + 1\<rparr> else u) ?ts"
    using res upd P by simp
  from res2 nd above show ?thesis
    unfolding Let_def nd by blast
qed

theorem moveTaskDown_last_task_witness:
  "sortSliceContract insertionSortLessFunc dayLess
   \<and> distinct (map ID [exA, exB, exC, exHigh, exMid]) \<and> \<not> IsCalendar exC
   \<and> getTasksForDate insertionSortLessFunc (mkModel [exA, exB, exC, exHigh, exMid] (day 3))
         (day 3) = [exA, exB, exC]
   \<and> appData_Tasks (moveTaskDown insertionSortLessFunc noEvents
         (mkModel [exA, exB, exC, exHigh, exMid] (day 3)) (day 3) ''C'')
       = [exA, exB, exC\<lparr>Date := day 4, Priority := 13\<rparr>, exHigh, exMid]
   \<and> Priority exHigh = 12 \<and> Priority exMid = 4
   \<and> sint (Priority exHigh) < sint (13 :: goint)"
proof -
  let ?m = "mkModel [exA, exB, exC, exHigh, exMid] (day 3)"
  note defs = exA_def exB_def exC_def exHigh_def exMid_def ex_defs
  have g: "getTasksForDate insertionSortLessFunc ?m (day 3) = [exA, exB, exC]"
    by (simp add: defs eval_defs)
  have ts: "appData_Tasks ?m = [exA, exB, exC, exHigh, exMid]" by (simp add: mkModel_def)
  have h1: "distinct (map ID (appData_Tasks ?m))" by (simp add: ts) (simp add: defs)
  have h2: "exC \<in> set (appData_Tasks ?m)" by (simp add: ts)
  have h3: "Truncate (Date exC) Hour24 = Truncate (day 3) Hour24"
    by (simp add: defs Truncate_day)
  have h4: "\<not> IsCalendar exC" by (simp add: defs)
  have h5: "findIndexByID (getTasksForDate insertionSortLessFunc ?m (day 3)) (ID exC) = Some 2"
    by (simp add: g) (simp add: defs)
  have h6: "2 + 1 = length (getTasksForDate insertionSortLessFunc ?m (day 3))" by (simp add: g)
  have r: "appData_Tasks (moveTaskDown insertionSortLessFunc noEvents ?m (day 3) ''C'')
             = [exA, exB, exC\<lparr>Date := day 4, Priority := 13\<rparr>, exHigh, exMid]"
    by (simp add: defs eval_defs moveTaskDown_def moveTaskToDay_def maxPriorityStep_def)
  have p: "Priority exHigh = 12" "Priority exMid = 4" by (simp_all add: defs)
  from moveTaskDown_last_task [OF insertionSort_dayLess h1 h2 h3 h4 h5 h6, of noEvents]
  show ?thesis
    using insertionSort_dayLess h1 h4 g r p by (simp add: ts)
qed

section \<open>Inserting after a selected task\<close>

lemma spec_descendantBlock_subset:
  "u \<in> set (spec_descendantBlock T dayTasks) \<Longrightarrow>
     u \<in> set dayTasks \<and> sint (Level T) < sint (Level u)"
  unfolding spec_descendantBlock_def
  by (auto dest!: set_takeWhileD in_set_dropD set_dropWhileD)

text \<open>
  Claim C1 as stated fails. The day holds the single task \<open>exA\<close> (level 0, priority
  10), which is selected. Its descendant block is empty, so the claim's \<open>endPriority\<close>
  is 10 and the claim puts the new task at priority 9; \<^verbatim>\<open>insertTaskAtPosition\<close> starts
  \<^verbatim>\<open>endPriority\<close> at the selected priority minus 1 and gives priority 8. And on the
  day of \<open>exA\<close>, its descendant \<open>exB\<close> (level 1, priority 9) and \<open>exC\<close> (level 0,
  priority 8), the new priority is that of \<open>exC\<close>, a task beyond the block, and not
  greater.
\<close>

theorem insertTaskAtPosition_no_descendants_counterexample:
  "Priority (last (appData_Tasks (insertTaskAtPosition insertionSortLessFunc (mkModel [exA] (day 3))
        (Some \<lparr>ItemType = ''task'', ItemDate = day 3, ItemTask = Some exA, IsSelected = False\<rparr>)
        exNew (day 3)))) = 8
   \<and> spec_descendantBlock exA (getTasksForDate insertionSortLessFunc (mkModel [exA] (day 3)) (day 3)) = []
   \<and> spec_endPriority exA (getTasksForDate insertionSortLessFunc (mkModel [exA] (day 3)) (day 3)) - 1 = 9
   \<and> spec_descendantBlock exA (getTasksForDate insertionSortLessFunc (mkModel [exA, exB, exC] (day 3)) (day 3)) = [exB]
   \<and> Priority (last (appData_Tasks (insertTaskAtPosition insertionSortLessFunc (mkModel [exA, exB, exC] (day 3))
        (Some \<lparr>ItemType = ''task'', ItemDate = day 3, ItemTask = Some exA, IsSelected = False\<rparr>)
        exNew (day 3)))) = Priority exC"
  by (simp add: exA_def exB_def exC_def exNew_def ex_defs eval_defs insertTaskAtPosition_def appendTask_def subtaskStep_def
      spec_endPriority_def spec_descendantBlock_def)

text \<open>
  Claim C1, amended. Whatever sequence the sort returns for the day, when the selected
  item is a task \<open>T\<close> of that sequence,
  \<^verbatim>\<open>insertTaskAtPosition\<close> appends the new task to the collection with priority
  \<open>endPriority - 1\<close>, where \<open>endPriority\<close> is the least of the priority of \<open>T\<close> minus 1
  and the priorities of the day's non-calendar tasks that have a lower priority and a
  greater level than \<open>T\<close>. Unless a decrement leaves the 64-bit range, the new priority
  is at least 2 below the priority of \<open>T\<close> and strictly below the priority of every
  non-calendar task of the day with a greater level than \<open>T\<close>, so of every task of the
  descendant block of \<open>T\<close>: the new task never lands inside the block. With \<open>exA\<close>
  (level 0, priority 10) selected and its descendant \<open>exB\<close> (level 1, priority 9) the
  new priority is 8.
\<close>

theorem insertTaskAtPosition_selected_task:
  assumes sel: "T \<in> set (getTasksForDate sortSlice m targetDate)"
  shows "let S = insert (sint (Priority T - 1))
                   ((\<lambda>u. sint (Priority u)) `
                      {u \<in> set (getTasksForDate sortSlice m targetDate).
                         \<not> IsCalendar u \<and> sint (Priority u) < sint (Priority T)
                         \<and> sint (Level T) < sint (Level u)});
             new = (word_of_int (Min S) - 1 :: goint)
         in appData_Tasks (insertTaskAtPosition sortSlice m
                 (Some \<lparr>ItemType = ''task'', ItemDate = d, ItemTask = Some T, IsSelected = s\<rparr>)
                 newTask targetDate)
               = appData_Tasks m @ [newTask\<lparr>Priority := new\<rparr>]
          \<and> (- (2 ^ 63) < sint (Priority T) \<and> - (2 ^ 63) < Min S \<longrightarrow>
               sint new \<le> sint (Priority T) - 2
               \<and> (\<forall>u \<in> set (getTasksForDate sortSlice m targetDate).
                     \<not> IsCalendar u \<and> sint (Level T) < sint (Level u)
                       \<longrightarrow> sint new < sint (Priority u))
               \<and> (\<forall>u \<in> set (spec_descendantBlock T (getTasksForDate sortSlice m targetDate)).
                     \<not> IsCalendar u \<longrightarrow> sint new < sint (Priority u)))"
proof -
  let ?day = "getTasksForDate sortSlice m targetDate"
  let ?Q = "\<lambda>u. \<not> IsCalendar u \<and> sint (Priority u) < sint (Priority T)
                 \<and> sint (Level T) < sint (Level u)"
  let ?E = "fold (subtaskStep T) ?day (Priority T - 1)"
  let ?S = "insert (sint (Priority T - 1)) ((\<lambda>u. sint (Priority u)) ` {u \<in> set ?day. ?Q u})"
  let ?new = "word_of_int (Min ?S) - 1 :: goint"
  have ne: "?day \<noteq> []" using sel by auto
  have res: "appData_Tasks (insertTaskAtPosition sortSlice m
                 (Some \<lparr>ItemType = ''task'', ItemDate = d, ItemTask = Some T, IsSelected = s\<rparr>)
                 newTask targetDate)
               = appData_Tasks m @ [newTask\<lparr>Priority := ?E - 1\<rparr>]"
    using ne by (simp add: insertTaskAtPosition_def Let_def appendTask_def)
  have mn: "sint ?E = Min ?S"
    by (rule fold_min_Min) (simp add: subtaskStep_def)
  have E: "?E = word_of_int (Min ?S)"
    using word_of_sint [of ?E] unfolding mn by simp
  have le0: "Min ?S \<le> sint (Priority T - 1)"
    by (intro Min_le) simp_all
  have leu: "Min ?S \<le> sint (Priority u)" if "u \<in> set ?day" "?Q u" for u
  proof -
    have "sint (Priority u) \<in> ?S" using that by blast
    then show ?thesis by (intro Min_le) simp_all
  qed
  have cons: "sint ?new \<le> sint (Priority T) - 2
           \<and> (\<forall>u \<in> set ?day. \<not> IsCalendar u \<and> sint (Level T) < sint (Level u)
                \<longrightarrow> sint ?new < sint (Priority u))
           \<and> (\<forall>u \<in> set (spec_descendantBlock T ?day).
                \<not> IsCalendar u \<longrightarrow> sint ?new < sint (Priority u))"
    if a: "- (2 ^ 63) < sint (Priority T) \<and> - (2 ^ 63) < Min ?S"
  proof -
    from a have p: "sint (Priority T - 1) = sint (Priority T) - 1"
      by (simp add: sint_pred)
    from a have "- (2 ^ 63) < sint ?E" by (simp add: mn)
    then have "sint (?E - 1) = sint ?E - 1" by (rule sint_pred)
    then have e: "sint ?new = Min ?S - 1"
      using E mn by simp
    have 1: "sint ?new \<le> sint (Priority T) - 2"
      using le0 p e by simp
    have 2: "sint ?new < sint (Priority u)"
      if u: "u \<in> set ?day" "\<not> IsCalendar u" "sint (Level T) < sint (Level u)" for u
    proof (cases "sint (Priority u) < sint (Priority T)")
      case True
      with u have "Min ?S \<le> sint (Priority u)" by (intro leu) simp_all
      with e show ?thesis by simp
    next
      case False
      with 1 show ?thesis by simp
    qed
    have 3: "sint ?new < sint (Priority u)"
      if u: "u \<in> set (spec_descendantBlock T ?day)" "\<not> IsCalendar u" for u
      using spec_descendantBlock_subset [OF u(1)] u(2) 2 by blast
    from 1 2 3 show ?thesis by blast
  qed
  from res E cons show ?thesis unfolding Let_def by simp
qed

theorem insertTaskAtPosition_selected_task_witness:
  "exA \<in> set (getTasksForDate insertionSortLessFunc (mkModel [exA, exB] (day 3)) (day 3))
   \<and> spec_descendantBlock exA (getTasksForDate insertionSortLessFunc (mkModel [exA, exB] (day 3)) (day 3)) = [exB]
   \<and> appData_Tasks (insertTaskAtPosition insertionSortLessFunc (mkModel [exA, exB] (day 3))
        (Some \<lparr>ItemType = ''task'', ItemDate = day 3, ItemTask = Some exA, IsSelected = False\<rparr>)
        exNew (day 3))
      = [exA, exB, exNew\<lparr>Priority := 8\<rparr>]
   \<and> sint (8 :: goint) < sint (Priority exB)"
proof -
  let ?m = "mkModel [exA, exB] (day 3)"
  have g: "getTasksForDate insertionSortLessFunc ?m (day 3) = [exA, exB]"
    by (simp add: exA_def exB_def exNew_def ex_defs eval_defs)
  have h: "exA \<in> set (getTasksForDate insertionSortLessFunc ?m (day 3))" by (simp add: g)
  have b: "spec_descendantBlock exA [exA, exB] = [exB]"
    by (simp add: spec_descendantBlock_def exA_def exB_def exNew_def ex_defs)
  from insertTaskAtPosition_selected_task [OF h, of "day 3" False exNew]
  show ?thesis using h
    by (simp add: g b) (simp add: exA_def exB_def exNew_def ex_defs eval_defs insertTaskAtPosition_def appendTask_def subtaskStep_def)
qed


section \<open>The floor of a move up\<close>

text \<open>
  Claim C2, at a model started at a clock reading on day 5, holding the single task
  \<open>exToday\<close> of day 5, after the key \<^verbatim>\<open>p\<close> was pressed once. \<^verbatim>\<open>moveTaskUp\<close>, called with
  today's date as the day list does, compares the previous day with \<^verbatim>\<open>m.currentDate\<close>,
  which the key moved to day 4, and not with today: the task is moved to day 4, a date
  before today. Without the key press the same call leaves the collection unchanged.
  The day holds one task, which every sort leaves as it is.
\<close>

theorem moveTaskUp_floor_is_view_date:
  "appData_Tasks (moveTaskUp insertionSortLessFunc noEvents
       (viewPreviousDay insertionSortLessFunc noEvents (NewModel insertionSortLessFunc noEvents [exToday] (day 5 + 1000)))
       (Truncate (day 5 + 1000) Hour24) ''A'')
     = [exToday\<lparr>Date := day 4, Priority := - 1\<rparr>]
   \<and> Before (day 4) (Truncate (day 5 + 1000) Hour24)
   \<and> appData_Tasks (moveTaskUp insertionSortLessFunc noEvents (NewModel insertionSortLessFunc noEvents [exToday] (day 5 + 1000))
       (Truncate (day 5 + 1000) Hour24) ''A'') = [exToday]"
proof -
  have t: "Truncate (day 5 + 1000) Hour24 = day 5"
    by (rule Truncate_day_plus) (simp_all add: Hour24_def)
  show ?thesis
    by (simp add: t exToday_def ex_defs eval_defs NewModel_def viewPreviousDay_def moveTaskUp_def
        moveTaskToDay_def minPriorityStep_def)
qed

end
